theory Spec2Isabelle
  imports Main "HOL-Library.Word"
begin

section \<open>The Ethernet switch of switch.c\<close>

text \<open>
  The development embeds the first translation unit of \<^verbatim>\<open>src/switch/switch.c\<close>
  (the draft with the \<^verbatim>\<open>mappings\<close> table): \<^verbatim>\<open>forward_to\<close>, \<^verbatim>\<open>parse_frame\<close>,
  \<^verbatim>\<open>handle_frame\<close>, \<^verbatim>\<open>handle_control\<close>, \<^verbatim>\<open>handle_mac\<close>, \<^verbatim>\<open>maccmp\<close> and the
  initialisation done by \<^verbatim>\<open>main\<close>.

  C objects are modelled by value, and every access through a pointer that does not
  point to an object is a \<^emph>\<open>fault\<close>: the program is compiled with
  \<^verbatim>\<open>-fsanitize=address,undefined\<close> (see the makefile), so such an access stops the
  process. A call of \<^verbatim>\<open>abort()\<close> is kept apart from a fault.
\<close>

subsection \<open>Data\<close>

type_synonym byte = "8 word"

text \<open>
  Modelled from the spec: \<^verbatim>\<open>struct MacAddress\<close> is declared in \<^verbatim>\<open>glab.h\<close>, which is
  not among the sources. It is exactly 6 bytes, compared bytewise.
\<close>

type_synonym MacAddress = "byte list"

definition sizeof_MacAddress :: nat where
  "sizeof_MacAddress = 6"

text \<open>
  \<^verbatim>\<open>struct EthernetHeader\<close> is packed: \<^verbatim>\<open>dst\<close> (6 bytes), \<^verbatim>\<open>src\<close> (6 bytes),
  \<^verbatim>\<open>tag\<close> (2 bytes).
\<close>

definition sizeof_EthernetHeader :: nat where
  "sizeof_EthernetHeader = sizeof_MacAddress + sizeof_MacAddress + 2"

text \<open>
  Modelled from the spec: \<^verbatim>\<open>struct GLAB_MessageHeader\<close> is declared in \<^verbatim>\<open>glab.h\<close>,
  which is not among the sources. It is a 16-bit \<^verbatim>\<open>size\<close> followed by a 16-bit
  \<^verbatim>\<open>type\<close>, both in network byte order.
\<close>

definition sizeof_GLAB_MessageHeader :: nat where
  "sizeof_GLAB_MessageHeader = 4"

text \<open>
  \<^verbatim>\<open>struct Interface\<close> and \<^verbatim>\<open>struct Mapping\<close>. Both structs of the source name
  their fields \<^verbatim>\<open>mac\<close> and \<^verbatim>\<open>ifc_num\<close>; the fields of \<^verbatim>\<open>struct Mapping\<close> carry
  the prefix \<open>map_\<close> here. \<^verbatim>\<open>time_t\<close> values are only compared, never computed
  with, and are integers.
\<close>

type_synonym time_t = int

record Interface =
  mac :: MacAddress
  ifc_num :: "16 word"

record Mapping =
  map_mac :: MacAddress
  map_ifc_num :: "16 word"
  timeRemembered :: time_t

text \<open>
  The globals. \<^verbatim>\<open>mappings\<close> is a pointer: \<open>None\<close> is the null pointer, \<open>Some tbl\<close>
  is a pointer to an array holding \<open>tbl\<close>. \<^verbatim>\<open>gifc\<close> points to the array that
  \<^verbatim>\<open>main\<close> allocates with \<^verbatim>\<open>num_ifc\<close> elements, so \<^verbatim>\<open>num_ifc\<close> is the length
  of that array. \<^verbatim>\<open>mappings_size\<close> is never assigned after its initialisation.
\<close>

record switch_state =
  mappings :: "Mapping list option"
  mappings_next_empty :: nat
  gifc :: "Interface list"

definition mappings_size :: nat where
  "mappings_size = 10"

definition num_ifc :: "switch_state \<Rightarrow> nat" where
  "num_ifc s = length (gifc s)"

text \<open>
  How a call ends: it returns with the new state, or \<^verbatim>\<open>abort()\<close> was called, or an
  access through an invalid pointer stopped the process. A handler yields this together
  with the messages it has written to standard output up to that point.
\<close>

datatype fault = NullDeref | OutOfBounds

datatype status = Returned switch_state | Aborted | Faulted fault

subsection \<open>Pointers to MAC addresses and \<^verbatim>\<open>maccmp\<close>\<close>

text \<open>
  A pointer to a \<^verbatim>\<open>struct MacAddress\<close> is modelled by what reading through it gives:
  \<open>Inr m\<close> when it points to an object holding \<open>m\<close>, \<open>Inl f\<close> when reading through
  it is the fault \<open>f\<close>.
\<close>

type_synonym mac_ptr = "fault + MacAddress"

text \<open>\<^verbatim>\<open>memcmp\<close> over the bytes of two addresses; only the sign of the result is fixed.\<close>

fun memcmp :: "byte list \<Rightarrow> byte list \<Rightarrow> int" where
  "memcmp (x # xs) (y # ys) =
     (if x = y then memcmp xs ys else if unat x < unat y then - 1 else 1)"
| "memcmp xs ys = 0"

text \<open>
  \<^verbatim>\<open>maccmp\<close> of this draft returns the result of \<^verbatim>\<open>memcmp\<close> itself: 0 when the
  addresses are equal, non-zero when they differ.
\<close>

definition maccmp :: "mac_ptr \<Rightarrow> mac_ptr \<Rightarrow> fault + int" where
  "maccmp mac1 mac2 =
     (case mac1 of
        Inl f \<Rightarrow> Inl f
      | Inr a \<Rightarrow> (case mac2 of
                   Inl f \<Rightarrow> Inl f
                 | Inr b \<Rightarrow> Inr (memcmp (take sizeof_MacAddress a) (take sizeof_MacAddress b))))"

text \<open>Reading \<^verbatim>\<open>mappings[i]\<close>, and the pointer \<^verbatim>\<open>&(mappings[i].mac)\<close>.\<close>

definition slot :: "Mapping list option \<Rightarrow> nat \<Rightarrow> fault + Mapping" where
  "slot p i =
     (case p of
        None \<Rightarrow> Inl NullDeref
      | Some tbl \<Rightarrow> if i < length tbl then Inr (tbl ! i) else Inl OutOfBounds)"

definition slot_mac :: "Mapping list option \<Rightarrow> nat \<Rightarrow> mac_ptr" where
  "slot_mac p i = (case slot p i of Inl f \<Rightarrow> Inl f | Inr m \<Rightarrow> Inr (map_mac m))"

text \<open>
  The test \<^verbatim>\<open>&(mappings[i]) == NULL || &(mappings[i]).mac == NULL\<close>: \<^verbatim>\<open>mac\<close> is the
  first field, so both addresses are the address of element \<open>i\<close>, which is null only
  for element 0 of the null pointer.
\<close>

definition slot_is_null :: "Mapping list option \<Rightarrow> nat \<Rightarrow> bool" where
  "slot_is_null p i = (p = None \<and> i = 0)"

text \<open>
  The address of the local variable \<^verbatim>\<open>eh\<close> (and of its fields) is never null, so the
  two tests \<^verbatim>\<open>&(eh).dst == NULL\<close> and \<^verbatim>\<open>&(eh.dst) == 0\<close> are false.
\<close>

definition eh_dst_is_null :: bool where
  "eh_dst_is_null = False"

text \<open>
  An \<^verbatim>\<open>int\<close> passed where a pointer is expected: the result of a comparison is 0 or 1,
  and neither is the address of an object.
\<close>

definition ptr_of_int :: "int \<Rightarrow> mac_ptr" where
  "ptr_of_int n = Inl NullDeref"

subsection \<open>\<^verbatim>\<open>forward_to\<close> and the flooding loop\<close>

text \<open>The two bytes in memory of \<^verbatim>\<open>htons(w)\<close>: high byte first.\<close>

definition htons :: "16 word \<Rightarrow> byte list" where
  "htons w = [of_nat (unat w div 256), of_nat (unat w mod 256)]"

text \<open>
  \<^verbatim>\<open>forward_to\<close> with a pointer to an element of \<^verbatim>\<open>gifc\<close>: the message written to
  standard output. \<^verbatim>\<open>sizeof(iob)\<close> is converted to 16 bits by \<^verbatim>\<open>htons\<close>.
\<close>

definition forward_to :: "Interface \<Rightarrow> byte list \<Rightarrow> byte list" where
  "forward_to dst frame =
     htons (of_nat (length frame + sizeof_GLAB_MessageHeader)) @ htons (ifc_num dst) @ frame"

text \<open>
  The loop \<^verbatim>\<open>for (a = 0; a < num_ifc; a++)\<close> over the indices given as a list. The
  arrival interface \<^verbatim>\<open>ifc\<close> is the pointer \<^verbatim>\<open>&gifc[interface - 1]\<close>, modelled by its
  index; the test \<^verbatim>\<open>&gifc[a].ifc_num != &ifc->ifc_num\<close> compares two addresses inside
  the array, which differ exactly when the indices differ.
\<close>

fun flood :: "Interface list \<Rightarrow> int \<Rightarrow> byte list \<Rightarrow> nat list \<Rightarrow> byte list list" where
  "flood g ifc frame [] = []"
| "flood g ifc frame (a # as) =
     (if int a \<noteq> ifc then forward_to (g ! a) frame # flood g ifc frame as
      else flood g ifc frame as)"

text \<open>Reading \<^verbatim>\<open>ifc->ifc_num\<close>; the index is out of the array for interface number 0.\<close>

definition ifc_read :: "Interface list \<Rightarrow> int \<Rightarrow> fault + 16 word" where
  "ifc_read g ifc =
     (if 0 \<le> ifc \<and> ifc < int (length g) then Inr (ifc_num (g ! nat ifc))
      else Inl OutOfBounds)"

subsection \<open>Step 1 of \<^verbatim>\<open>parse_frame\<close>: learning the sender\<close>

text \<open>
  The first loop of \<^verbatim>\<open>parse_frame\<close>. The first \<^verbatim>\<open>if\<close> has no braces, so the search
  for the sender's entry is its body: \<^verbatim>\<open>maccmp\<close> is called only when the address of
  the element is null. The result is the index of the entry found for the sender, if
  any (the source updates that entry, sets \<^verbatim>\<open>isNew = 0\<close> and leaves the loop), and
  \<^verbatim>\<open>oldestIndex\<close>. \<^verbatim>\<open>difftime(a, b) < 0\<close> holds exactly when \<open>a < b\<close>.
\<close>

fun learn_scan ::
  "Mapping list option \<Rightarrow> MacAddress \<Rightarrow> nat list \<Rightarrow> time_t \<Rightarrow> nat \<Rightarrow> fault + (nat option \<times> nat)"
where
  "learn_scan p src [] oldest oldestIndex = Inr (None, oldestIndex)"
| "learn_scan p src (i # is) oldest oldestIndex =
     (case (if slot_is_null p i then maccmp (slot_mac p i) (Inr src) else Inr 0) of
        Inl f \<Rightarrow> Inl f
      | Inr c \<Rightarrow>
          if c \<noteq> 0 then Inr (Some i, oldestIndex)
          else (case slot p i of
                  Inl f \<Rightarrow> Inl f
                | Inr m \<Rightarrow>
                    if timeRemembered m < oldest
                    then learn_scan p src is (timeRemembered m) i
                    else learn_scan p src is oldest oldestIndex))"

text \<open>Writing \<^verbatim>\<open>mappings[i]\<close>.\<close>

definition store :: "switch_state \<Rightarrow> nat \<Rightarrow> (Mapping \<Rightarrow> Mapping) \<Rightarrow> fault + switch_state" where
  "store s i f =
     (case mappings s of
        None \<Rightarrow> Inl NullDeref
      | Some tbl \<Rightarrow>
          if i < length tbl then Inr (s\<lparr>mappings := Some (tbl[i := f (tbl ! i)])\<rparr>)
          else Inl OutOfBounds)"

text \<open>
  Step 1 as a whole. \<open>current\<close> and \<open>oldest0\<close> are the results of the two calls of
  \<^verbatim>\<open>time(NULL)\<close>.
\<close>

definition learn ::
  "switch_state \<Rightarrow> int \<Rightarrow> MacAddress \<Rightarrow> time_t \<Rightarrow> time_t \<Rightarrow> fault + switch_state"
where
  "learn s ifc src current oldest0 =
     (case learn_scan (mappings s) src [0..<mappings_size] oldest0 0 of
        Inl f \<Rightarrow> Inl f
      | Inr (found, oldestIndex) \<Rightarrow>
          (case found of
             Some i \<Rightarrow>
               (case ifc_read (gifc s) ifc of
                  Inl f \<Rightarrow> Inl f
                | Inr n \<Rightarrow> store s i (\<lambda>m. m\<lparr>map_ifc_num := n, timeRemembered := current\<rparr>))
           | None \<Rightarrow>
               (let index = (if mappings_next_empty s < mappings_size
                             then mappings_next_empty s else oldestIndex);
                    s1 = (if mappings_next_empty s < mappings_size
                          then s\<lparr>mappings_next_empty := mappings_next_empty s + 1\<rparr> else s)
                in case slot (mappings s1) index of
                     Inl f \<Rightarrow> Inl f
                   | Inr m0 \<Rightarrow>
                       (case ifc_read (gifc s1) ifc of
                          Inl f \<Rightarrow> Inl f
                        | Inr n \<Rightarrow>
                            store s1 index
                              (\<lambda>m. \<lparr>map_mac = src, map_ifc_num = n, timeRemembered = current\<rparr>)))))"

subsection \<open>Step 2 of \<^verbatim>\<open>parse_frame\<close>: the receiver's interface\<close>

text \<open>
  The second loop. The call is \<^verbatim>\<open>maccmp(&(mappings[i].mac), &(eh.dst) == 0)\<close>: the
  second argument is the value of the comparison \<^verbatim>\<open>&(eh.dst) == 0\<close>, converted to
  a pointer. The result is \<^verbatim>\<open>destination_if\<close> when \<^verbatim>\<open>found_dest_mac\<close> is set.
\<close>

fun lookup_scan :: "Mapping list option \<Rightarrow> MacAddress \<Rightarrow> nat list \<Rightarrow> fault + (16 word) option" where
  "lookup_scan p dst [] = Inr None"
| "lookup_scan p dst (i # is) =
     (case maccmp (slot_mac p i) (ptr_of_int (if eh_dst_is_null then 1 else 0)) of
        Inl f \<Rightarrow> Inl f
      | Inr c \<Rightarrow>
          if c \<noteq> 0
          then (case slot p i of Inl f \<Rightarrow> Inl f | Inr m \<Rightarrow> Inr (Some (map_ifc_num m)))
          else lookup_scan p dst is)"

subsection \<open>The emission, \<^verbatim>\<open>parse_frame\<close> and the handlers\<close>

text \<open>
  When the receiver was found, the call is \<^verbatim>\<open>forward_to(&destination_if, ...)\<close>: the
  argument points to a local \<^verbatim>\<open>uint16_t\<close>, and \<^verbatim>\<open>forward_to\<close> reads the field
  \<^verbatim>\<open>ifc_num\<close> six bytes behind it, outside of that variable, before it writes.
  Otherwise the frame goes to every interface but the one it came from.
\<close>

definition emit_step ::
  "switch_state \<Rightarrow> int \<Rightarrow> byte list \<Rightarrow> (16 word) option \<Rightarrow> fault option \<times> byte list list"
where
  "emit_step s ifc frame found =
     (case found of
        Some destination_if \<Rightarrow> (Some OutOfBounds, [])
      | None \<Rightarrow> (None, flood (gifc s) ifc frame [0..<num_ifc s]))"

text \<open>
  \<^verbatim>\<open>parse_frame\<close>. \<^verbatim>\<open>memcpy(&eh, frame, sizeof(eh))\<close> makes \<^verbatim>\<open>eh.dst\<close> the first six
  bytes of the frame and \<^verbatim>\<open>eh.src\<close> the next six. The flooding guarded by
  \<^verbatim>\<open>&(eh).dst == NULL\<close> comes first and is not followed by a \<^verbatim>\<open>return\<close>.
\<close>

definition parse_frame ::
  "switch_state \<Rightarrow> int \<Rightarrow> byte list \<Rightarrow> time_t \<Rightarrow> time_t \<Rightarrow> status \<times> byte list list"
where
  "parse_frame s ifc frame current oldest0 =
     (if length frame < sizeof_EthernetHeader then (Returned s, [])
      else
        (let dst = take sizeof_MacAddress frame;
             src = take sizeof_MacAddress (drop sizeof_MacAddress frame);
             pre = (if eh_dst_is_null then flood (gifc s) ifc frame [0..<num_ifc s] else [])
         in case learn s ifc src current oldest0 of
              Inl f \<Rightarrow> (Faulted f, pre)
            | Inr s1 \<Rightarrow>
                (case lookup_scan (mappings s1) dst [0..<mappings_size] of
                   Inl f \<Rightarrow> (Faulted f, pre)
                 | Inr found \<Rightarrow>
                     (case emit_step s1 ifc frame found of
                        (Some f, out) \<Rightarrow> (Faulted f, pre @ out)
                      | (None, out) \<Rightarrow> (Returned s1, pre @ out)))))"

text \<open>\<^verbatim>\<open>handle_frame\<close>: the guard, then \<^verbatim>\<open>parse_frame(&gifc[interface - 1], ...)\<close>.\<close>

definition handle_frame ::
  "switch_state \<Rightarrow> 16 word \<Rightarrow> byte list \<Rightarrow> time_t \<Rightarrow> time_t \<Rightarrow> status \<times> byte list list"
where
  "handle_frame s interface frame current oldest0 =
     (if num_ifc s < unat interface then (Aborted, [])
      else parse_frame s (int (unat interface) - 1) frame current oldest0)"

text \<open>
  \<^verbatim>\<open>handle_mac\<close>: the same guard, then the assignment \<^verbatim>\<open>gifc[ifc_num - 1].mac = *mac\<close>,
  which for number 0 writes in front of the array.
\<close>

definition handle_mac :: "switch_state \<Rightarrow> 16 word \<Rightarrow> MacAddress \<Rightarrow> status" where
  "handle_mac s n m =
     (if num_ifc s < unat n then Aborted
      else if unat n = 0 then Faulted OutOfBounds
      else Returned (s\<lparr>gifc := (gifc s)[unat n - 1 := (gifc s ! (unat n - 1))\<lparr>mac := m\<rparr>]\<rparr>))"

text \<open>
  \<^verbatim>\<open>handle_control\<close> on the buffer \<open>cmd\<close>: the status, the buffer afterwards, and the
  text that \<^verbatim>\<open>%s\<close> prints, which ends in front of the first NUL byte.
\<close>

definition handle_control :: "switch_state \<Rightarrow> byte list \<Rightarrow> nat \<Rightarrow> status \<times> byte list \<times> byte list" where
  "handle_control s cmd cmd_len =
     (if cmd_len = 0 \<or> length cmd < cmd_len then (Faulted OutOfBounds, cmd, [])
      else (let cmd' = cmd[cmd_len - 1 := 0]
            in (Returned s, cmd', takeWhile (\<lambda>b. b \<noteq> 0) cmd')))"

text \<open>
  The state that \<^verbatim>\<open>main\<close> sets up for \<open>argc\<close> arguments: the interfaces are numbered
  from 1 (the number is converted to 16 bits), their addresses are zero, and
  \<^verbatim>\<open>mappings\<close>, a static pointer that is never assigned, is null.
\<close>

definition main_init :: "nat \<Rightarrow> switch_state" where
  "main_init argc =
     \<lparr>mappings = None, mappings_next_empty = 0,
      gifc = map (\<lambda>i. \<lparr>mac = replicate 6 0, ifc_num = of_nat i\<rparr>) [1..<argc]\<rparr>"


section \<open>Notions used to state the properties\<close>

text \<open>
  Step 1 run for a sequence of frames: each element gives the index of the arrival
  interface, the sender's address and the two results of \<^verbatim>\<open>time(NULL)\<close>.
\<close>

record sighting =
  at_ifc :: int
  from_src :: MacAddress
  at_current :: time_t
  at_oldest0 :: time_t

fun learn_all :: "switch_state \<Rightarrow> sighting list \<Rightarrow> fault + switch_state" where
  "learn_all s [] = Inr s"
| "learn_all s (e # es) =
     (case learn s (at_ifc e) (from_src e) (at_current e) (at_oldest0 e) of
        Inl f \<Rightarrow> Inl f
      | Inr s' \<Rightarrow> learn_all s' es)"

text \<open>The entry that step 1 writes for a frame.\<close>

definition entry_of :: "Interface list \<Rightarrow> sighting \<Rightarrow> Mapping" where
  "entry_of g e =
     \<lparr>map_mac = from_src e, map_ifc_num = ifc_num (g ! nat (at_ifc e)),
      timeRemembered = at_current e\<rparr>"

text \<open>
  The addresses held by the occupied slots of the table, which are the slots below
  \<^verbatim>\<open>mappings_next_empty\<close>.
\<close>

definition learned_macs :: "switch_state \<Rightarrow> MacAddress list" where
  "learned_macs s =
     (case mappings s of
        None \<Rightarrow> []
      | Some tbl \<Rightarrow> map map_mac (take (mappings_next_empty s) tbl))"

text \<open>
  The program as a whole: \<^verbatim>\<open>main\<close> sets up the state and \<^verbatim>\<open>loop\<close> (of \<^verbatim>\<open>loop.c\<close>,
  which is not among the sources) calls the three handlers, one call per message it
  reads. A run is the list of these calls; it goes on as long as the calls return.
\<close>

datatype call =
  FrameCall "16 word" "byte list" time_t time_t
| MacCall "16 word" MacAddress
| ControlCall "byte list" nat

fun do_call :: "switch_state \<Rightarrow> call \<Rightarrow> status" where
  "do_call s (FrameCall interface frame current oldest0) =
     fst (handle_frame s interface frame current oldest0)"
| "do_call s (MacCall n m) = handle_mac s n m"
| "do_call s (ControlCall cmd cmd_len) = fst (handle_control s cmd cmd_len)"

fun run :: "switch_state \<Rightarrow> call list \<Rightarrow> status" where
  "run s [] = Returned s"
| "run s (c # cs) =
     (case do_call s c of
        Returned s' \<Rightarrow> run s' cs
      | Aborted \<Rightarrow> Aborted
      | Faulted f \<Rightarrow> Faulted f)"

text \<open>
  Reading a written message back: a 16-bit big-endian number, the \<^verbatim>\<open>size\<close> field
  (bytes 0 and 1) and the \<^verbatim>\<open>type\<close> field (bytes 2 and 3) of the header.
\<close>

fun be16_val :: "byte list \<Rightarrow> nat" where
  "be16_val (hi # lo # bs) = 256 * unat hi + unat lo"
| "be16_val bs = 0"

definition msg_size :: "byte list \<Rightarrow> nat" where
  "msg_size m = be16_val (take 2 m)"

definition msg_target :: "byte list \<Rightarrow> nat" where
  "msg_target m = be16_val (take 2 (drop 2 m))"

subsection \<open>Example states and frames\<close>

text \<open>
  A switch with three interfaces as \<^verbatim>\<open>main\<close> numbers them, whose \<^verbatim>\<open>mappings\<close>
  points to ten zeroed slots; three addresses; a frame of 14 bytes with the given
  receiver and sender.
\<close>

definition zero_mapping :: Mapping where
  "zero_mapping = \<lparr>map_mac = [0, 0, 0, 0, 0, 0], map_ifc_num = 0, timeRemembered = 0\<rparr>"

definition demo_state :: switch_state where
  "demo_state =
     \<lparr>mappings = Some (replicate 10 zero_mapping), mappings_next_empty = 0,
      gifc = gifc (main_init 4)\<rparr>"

definition mac_A :: MacAddress where
  "mac_A = [2, 0, 0, 0, 0, 10]"

definition mac_B :: MacAddress where
  "mac_B = [2, 0, 0, 0, 0, 11]"

definition broadcast :: MacAddress where
  "broadcast = [255, 255, 255, 255, 255, 255]"

definition eth :: "MacAddress \<Rightarrow> MacAddress \<Rightarrow> byte list" where
  "eth d s = d @ s @ [8, 0]"

text \<open>The table after \<open>mac_A\<close> was entered for interface 2 and \<open>mac_B\<close> for interface 3.\<close>

definition known_state :: switch_state where
  "known_state =
     demo_state\<lparr>mappings :=
         Some ([\<lparr>map_mac = mac_A, map_ifc_num = 2, timeRemembered = 50\<rparr>,
                \<lparr>map_mac = mac_B, map_ifc_num = 3, timeRemembered = 60\<rparr>] @
               replicate 8 zero_mapping),
       mappings_next_empty := 2\<rparr>"

text \<open>The table after \<open>mac_A\<close> was seen twice in a row on interface 1.\<close>

definition twice_state :: switch_state where
  "twice_state =
     demo_state\<lparr>mappings :=
         Some ([\<lparr>map_mac = mac_A, map_ifc_num = 1, timeRemembered = 100\<rparr>,
                \<lparr>map_mac = mac_A, map_ifc_num = 1, timeRemembered = 101\<rparr>] @
               replicate 8 zero_mapping),
       mappings_next_empty := 2\<rparr>"

text \<open>Eleven senders with different addresses, one per second, all on interface 1.\<close>

definition eleven :: "sighting list" where
  "eleven =
     map (\<lambda>i. \<lparr>at_ifc = 0, from_src = [2, 0, 0, 0, 2, of_nat i], at_current = int i,
               at_oldest0 = int i\<rparr>) [0..<11]"


section \<open>Auxiliary facts\<close>

subsection \<open>The two loops over the table\<close>

lemma lookup_scan_faults: "\<exists>f. lookup_scan p dst (i # is) = Inl f"
  by (simp add: maccmp_def ptr_of_int_def split: sum.splits)

text \<open>
  Step 1 taken alone, for a state in which \<^verbatim>\<open>mappings\<close> points to a table. The
  program itself never has such a state, see \<open>run_table_null\<close> below.
\<close>

lemma learn_scan_allocated:
  assumes "\<forall>i\<in>set is. i < length tbl" and "sorted_wrt (<) is"
  shows "\<exists>k. learn_scan (Some tbl) src is oldest oi = Inr (None, k) \<and>
           ((k = oi \<and> (\<forall>j\<in>set is. oldest \<le> timeRemembered (tbl ! j))) \<or>
            (k \<in> set is \<and> timeRemembered (tbl ! k) < oldest \<and>
             (\<forall>j\<in>set is. timeRemembered (tbl ! k) \<le> timeRemembered (tbl ! j)) \<and>
             (\<forall>j\<in>set is. j < k \<longrightarrow> timeRemembered (tbl ! k) < timeRemembered (tbl ! j))))"
  using assms
proof (induction "is" arbitrary: oldest oi)
  case Nil
  then show ?case by simp
next
  case (Cons i "is")
  have il: "i < length tbl" using Cons.prems by simp
  have rest: "\<forall>i\<in>set is. i < length tbl" "sorted_wrt (<) is" using Cons.prems by simp_all
  have least: "\<forall>j\<in>set is. i < j" using Cons.prems by simp
  show ?case
  proof (cases "timeRemembered (tbl ! i) < oldest")
    case True
    from Cons.IH [OF rest, of "timeRemembered (tbl ! i)" i]
    obtain k where k: "learn_scan (Some tbl) src is (timeRemembered (tbl ! i)) i = Inr (None, k)"
      and d: "(k = i \<and> (\<forall>j\<in>set is. timeRemembered (tbl ! i) \<le> timeRemembered (tbl ! j))) \<or>
            (k \<in> set is \<and> timeRemembered (tbl ! k) < timeRemembered (tbl ! i) \<and>
             (\<forall>j\<in>set is. timeRemembered (tbl ! k) \<le> timeRemembered (tbl ! j)) \<and>
             (\<forall>j\<in>set is. j < k \<longrightarrow> timeRemembered (tbl ! k) < timeRemembered (tbl ! j)))"
      by blast
    have "learn_scan (Some tbl) src (i # is) oldest oi = Inr (None, k)"
      using True il k by (simp add: slot_is_null_def slot_def)
    moreover from d True least have "(k \<in> set (i # is) \<and> timeRemembered (tbl ! k) < oldest \<and>
             (\<forall>j\<in>set (i # is). timeRemembered (tbl ! k) \<le> timeRemembered (tbl ! j)) \<and>
             (\<forall>j\<in>set (i # is). j < k \<longrightarrow> timeRemembered (tbl ! k) < timeRemembered (tbl ! j)))"
      by (elim disjE) auto
    ultimately show ?thesis by blast
  next
    case False
    from Cons.IH [OF rest, of oldest oi]
    obtain k where k: "learn_scan (Some tbl) src is oldest oi = Inr (None, k)"
      and d: "(k = oi \<and> (\<forall>j\<in>set is. oldest \<le> timeRemembered (tbl ! j))) \<or>
            (k \<in> set is \<and> timeRemembered (tbl ! k) < oldest \<and>
             (\<forall>j\<in>set is. timeRemembered (tbl ! k) \<le> timeRemembered (tbl ! j)) \<and>
             (\<forall>j\<in>set is. j < k \<longrightarrow> timeRemembered (tbl ! k) < timeRemembered (tbl ! j)))"
      by blast
    have "learn_scan (Some tbl) src (i # is) oldest oi = Inr (None, k)"
      using False il k by (simp add: slot_is_null_def slot_def)
    moreover from d False least have "(k = oi \<and> (\<forall>j\<in>set (i # is). oldest \<le> timeRemembered (tbl ! j))) \<or>
            (k \<in> set (i # is) \<and> timeRemembered (tbl ! k) < oldest \<and>
             (\<forall>j\<in>set (i # is). timeRemembered (tbl ! k) \<le> timeRemembered (tbl ! j)) \<and>
             (\<forall>j\<in>set (i # is). j < k \<longrightarrow> timeRemembered (tbl ! k) < timeRemembered (tbl ! j)))"
      by (elim disjE) auto
    ultimately show ?thesis by blast
  qed
qed


lemma learn_allocated:
  assumes alloc: "mappings s = Some tbl" and len: "mappings_size \<le> length tbl"
    and ifc: "0 \<le> ifc" "ifc < int (num_ifc s)"
  shows "\<exists>k. learn s ifc src current oldest0 =
             Inr (s\<lparr>mappings := Some (tbl[(if mappings_next_empty s < mappings_size
                                             then mappings_next_empty s else k) :=
                         \<lparr>map_mac = src, map_ifc_num = ifc_num (gifc s ! nat ifc),
                          timeRemembered = current\<rparr>]),
                    mappings_next_empty := (if mappings_next_empty s < mappings_size
                                            then mappings_next_empty s + 1
                                            else mappings_next_empty s)\<rparr>) \<and>
           k < mappings_size \<and>
           ((k = 0 \<and> (\<forall>j<mappings_size. oldest0 \<le> timeRemembered (tbl ! j))) \<or>
            (timeRemembered (tbl ! k) < oldest0 \<and>
             (\<forall>j<mappings_size. timeRemembered (tbl ! k) \<le> timeRemembered (tbl ! j)) \<and>
             (\<forall>j<k. timeRemembered (tbl ! k) < timeRemembered (tbl ! j))))"
proof -
  have a: "\<forall>i\<in>set [0..<mappings_size]. i < length tbl" using len by simp
  have b: "sorted_wrt (<) [0..<mappings_size]" by simp
  from learn_scan_allocated [OF a b, of src oldest0 0]
  obtain k where k: "learn_scan (Some tbl) src [0..<mappings_size] oldest0 0 = Inr (None, k)"
    and d: "(k = 0 \<and> (\<forall>j\<in>set [0..<mappings_size]. oldest0 \<le> timeRemembered (tbl ! j))) \<or>
            (k \<in> set [0..<mappings_size] \<and> timeRemembered (tbl ! k) < oldest0 \<and>
             (\<forall>j\<in>set [0..<mappings_size]. timeRemembered (tbl ! k) \<le> timeRemembered (tbl ! j)) \<and>
             (\<forall>j\<in>set [0..<mappings_size]. j < k \<longrightarrow> timeRemembered (tbl ! k) < timeRemembered (tbl ! j)))"
    by blast
  have pos: "0 < mappings_size" by (simp add: mappings_size_def)
  have kl: "k < mappings_size" using d pos by auto
  have rd: "ifc_read (gifc s) ifc = Inr (ifc_num (gifc s ! nat ifc))"
    using ifc by (simp add: ifc_read_def num_ifc_def)
  have eq: "learn s ifc src current oldest0 =
             Inr (s\<lparr>mappings := Some (tbl[(if mappings_next_empty s < mappings_size
                                             then mappings_next_empty s else k) :=
                         \<lparr>map_mac = src, map_ifc_num = ifc_num (gifc s ! nat ifc),
                          timeRemembered = current\<rparr>]),
                    mappings_next_empty := (if mappings_next_empty s < mappings_size
                                            then mappings_next_empty s + 1
                                            else mappings_next_empty s)\<rparr>)"
    using alloc len k kl rd by (simp add: learn_def slot_def store_def Let_def)
  have scanned: "(k = 0 \<and> (\<forall>j<mappings_size. oldest0 \<le> timeRemembered (tbl ! j))) \<or>
            (timeRemembered (tbl ! k) < oldest0 \<and>
             (\<forall>j<mappings_size. timeRemembered (tbl ! k) \<le> timeRemembered (tbl ! j)) \<and>
             (\<forall>j<k. timeRemembered (tbl ! k) < timeRemembered (tbl ! j)))"
    using d kl by auto
  from eq kl scanned show ?thesis by blast
qed

lemma learn_free:
  assumes "mappings s = Some tbl" and "mappings_size \<le> length tbl"
    and "0 \<le> ifc" "ifc < int (num_ifc s)" and "mappings_next_empty s < mappings_size"
  shows "learn s ifc src current oldest0 =
           Inr (s\<lparr>mappings := Some (tbl[mappings_next_empty s :=
                       \<lparr>map_mac = src, map_ifc_num = ifc_num (gifc s ! nat ifc),
                        timeRemembered = current\<rparr>]),
                  mappings_next_empty := mappings_next_empty s + 1\<rparr>)"
  using learn_allocated [OF assms(1-4), of src current oldest0] assms(5) by auto

lemma learn_full:
  assumes "mappings s = Some tbl" and "mappings_size \<le> length tbl"
    and "0 \<le> ifc" "ifc < int (num_ifc s)" and "mappings_size \<le> mappings_next_empty s"
    and clock: "\<forall>j<mappings_size. timeRemembered (tbl ! j) \<le> oldest0"
  shows "\<exists>k<mappings_size.
           learn s ifc src current oldest0 =
             Inr (s\<lparr>mappings := Some (tbl[k :=
                       \<lparr>map_mac = src, map_ifc_num = ifc_num (gifc s ! nat ifc),
                        timeRemembered = current\<rparr>])\<rparr>) \<and>
           (\<forall>j<mappings_size. timeRemembered (tbl ! k) \<le> timeRemembered (tbl ! j)) \<and>
           (\<forall>j<k. timeRemembered (tbl ! k) < timeRemembered (tbl ! j))"
proof -
  from learn_allocated [OF assms(1-4), of src current oldest0]
  obtain k where eq: "learn s ifc src current oldest0 =
             Inr (s\<lparr>mappings := Some (tbl[(if mappings_next_empty s < mappings_size
                                             then mappings_next_empty s else k) :=
                         \<lparr>map_mac = src, map_ifc_num = ifc_num (gifc s ! nat ifc),
                          timeRemembered = current\<rparr>]),
                    mappings_next_empty := (if mappings_next_empty s < mappings_size
                                            then mappings_next_empty s + 1
                                            else mappings_next_empty s)\<rparr>)"
    and kl: "k < mappings_size"
    and d: "(k = 0 \<and> (\<forall>j<mappings_size. oldest0 \<le> timeRemembered (tbl ! j))) \<or>
            (timeRemembered (tbl ! k) < oldest0 \<and>
             (\<forall>j<mappings_size. timeRemembered (tbl ! k) \<le> timeRemembered (tbl ! j)) \<and>
             (\<forall>j<k. timeRemembered (tbl ! k) < timeRemembered (tbl ! j)))"
    by blast
  have eq': "learn s ifc src current oldest0 =
             Inr (s\<lparr>mappings := Some (tbl[k :=
                       \<lparr>map_mac = src, map_ifc_num = ifc_num (gifc s ! nat ifc),
                        timeRemembered = current\<rparr>])\<rparr>)"
    using eq assms(5) by simp
  have mn: "\<forall>j<mappings_size. timeRemembered (tbl ! k) \<le> timeRemembered (tbl ! j)"
    using d clock kl by (metis order_trans)
  have lst: "\<forall>j<k. timeRemembered (tbl ! k) < timeRemembered (tbl ! j)"
    using d by auto
  from kl eq' mn lst show ?thesis by blast
qed


lemma learn_all_append:
  "learn_all s (xs @ ys) =
     (case learn_all s xs of Inl f \<Rightarrow> Inl f | Inr s' \<Rightarrow> learn_all s' ys)"
  by (induction xs arbitrary: s) (simp_all split: sum.splits)

lemma learn_all_fill:
  assumes "mappings s = Some tbl" and "length tbl = mappings_size"
    and "mappings_next_empty s + length es \<le> mappings_size"
    and "\<forall>e\<in>set es. 0 \<le> at_ifc e \<and> at_ifc e < int (num_ifc s)"
  shows "learn_all s es =
           Inr (s\<lparr>mappings := Some (take (mappings_next_empty s) tbl @ map (entry_of (gifc s)) es @
                                     drop (mappings_next_empty s + length es) tbl),
                  mappings_next_empty := mappings_next_empty s + length es\<rparr>)"
  using assms
proof (induction es arbitrary: s tbl)
  case Nil
  then show ?case by simp
next
  case (Cons e es)
  let ?n = "mappings_next_empty s"
  let ?E = "\<lparr>map_mac = from_src e, map_ifc_num = ifc_num (gifc s ! nat (at_ifc e)),
             timeRemembered = at_current e\<rparr>"
  let ?s1 = "s\<lparr>mappings := Some (tbl[?n := ?E]), mappings_next_empty := ?n + 1\<rparr>"
  have nl: "?n < mappings_size" using Cons.prems by simp
  have nt: "?n < length tbl" using Cons.prems by simp
  have step: "learn s (at_ifc e) (from_src e) (at_current e) (at_oldest0 e) = Inr ?s1"
    using Cons.prems nl by (intro learn_free) simp_all
  have ih: "learn_all ?s1 es =
           Inr (?s1\<lparr>mappings := Some (take (mappings_next_empty ?s1) (tbl[?n := ?E]) @
                                       map (entry_of (gifc ?s1)) es @
                                       drop (mappings_next_empty ?s1 + length es) (tbl[?n := ?E])),
                  mappings_next_empty := mappings_next_empty ?s1 + length es\<rparr>)"
    using Cons.prems by (intro Cons.IH) (simp_all add: num_ifc_def)
  have tk: "take (Suc ?n) (tbl[?n := ?E]) = take ?n tbl @ [?E]"
    using nt by (simp add: take_Suc_conv_app_nth)
  have dr: "drop (Suc (?n + length es)) (tbl[?n := ?E]) = drop (Suc (?n + length es)) tbl"
    by simp
  show ?case
    using step ih tk dr by (simp add: entry_of_def)
qed


lemma saturation:
  assumes alloc: "mappings s = Some tbl" "length tbl = mappings_size"
    and empty: "mappings_next_empty s = 0"
    and n: "length es = mappings_size + 1"
    and dist: "distinct (map from_src es)"
    and chron: "sorted (map at_current es)"
    and valid: "\<forall>e\<in>set es. 0 \<le> at_ifc e \<and> at_ifc e < int (num_ifc s)"
  shows "\<exists>s'. learn_all s es = Inr s' \<and> mappings_next_empty s' = mappings_size \<and>
           from_src (hd es) \<notin> set (learned_macs s') \<and>
           (\<forall>e\<in>set (tl es). from_src e \<in> set (learned_macs s'))"
proof -
  from n obtain x0 r where es0: "es = x0 # r" by (cases es) simp_all
  with n have "r \<noteq> []" by (auto simp: mappings_size_def)
  then obtain xs e where r: "r = xs @ [e]" by (cases r rule: rev_cases) simp_all
  have es: "es = (x0 # xs) @ [e]" using es0 r by simp
  have lx: "length (x0 # xs) = mappings_size" using n es by simp
  define t where "t = map (entry_of (gifc s)) (x0 # xs)"
  define s10 where "s10 = s\<lparr>mappings := Some t, mappings_next_empty := mappings_size\<rparr>"
  have fill: "learn_all s (x0 # xs) = Inr s10"
    using learn_all_fill [of s tbl "x0 # xs"] alloc empty lx valid es
    by (simp add: s10_def t_def)
  have v: "0 \<le> at_ifc e" "at_ifc e < int (num_ifc s10)"
    using valid es by (simp_all add: num_ifc_def s10_def)
  have a10: "mappings s10 = Some t" by (simp add: s10_def)
  have l10: "mappings_size \<le> length t" using lx by (simp add: t_def)
  have full: "\<not> mappings_next_empty s10 < mappings_size" by (simp add: s10_def)
  have g10: "gifc s10 = gifc s" by (simp add: s10_def)
  from learn_allocated [OF a10 l10 v, of "from_src e" "at_current e" "at_oldest0 e"]
  obtain k where
    eq0: "learn s10 (at_ifc e) (from_src e) (at_current e) (at_oldest0 e) =
           Inr (s10\<lparr>mappings := Some (t[(if mappings_next_empty s10 < mappings_size
                                             then mappings_next_empty s10 else k) :=
                         \<lparr>map_mac = from_src e, map_ifc_num = ifc_num (gifc s10 ! nat (at_ifc e)),
                          timeRemembered = at_current e\<rparr>]),
                    mappings_next_empty := (if mappings_next_empty s10 < mappings_size
                                            then mappings_next_empty s10 + 1
                                            else mappings_next_empty s10)\<rparr>)"
    and kl: "k < mappings_size"
    and d: "(k = 0 \<and> (\<forall>j<mappings_size. at_oldest0 e \<le> timeRemembered (t ! j))) \<or>
            (timeRemembered (t ! k) < at_oldest0 e \<and>
             (\<forall>j<mappings_size. timeRemembered (t ! k) \<le> timeRemembered (t ! j)) \<and>
             (\<forall>j<k. timeRemembered (t ! k) < timeRemembered (t ! j)))"
    by blast
  have eq: "learn s10 (at_ifc e) (from_src e) (at_current e) (at_oldest0 e) =
           Inr (s10\<lparr>mappings := Some (t[k := entry_of (gifc s) e])\<rparr>)"
    using eq0 full g10 by (simp add: entry_of_def)
  have k0: "k = 0"
  proof (rule ccontr)
    assume "k \<noteq> 0"
    then have kp: "0 < k" by simp
    with d have lt: "timeRemembered (t ! k) < timeRemembered (t ! 0)" by blast
    have kx: "k < length (x0 # xs)" using kl lx by simp
    have "sorted (map at_current (x0 # xs))" using chron es by (simp add: sorted_append)
    then have "map at_current (x0 # xs) ! 0 \<le> map at_current (x0 # xs) ! k"
      using kx by (intro sorted_nth_mono) simp_all
    then have le: "at_current ((x0 # xs) ! 0) \<le> at_current ((x0 # xs) ! k)"
      using kx by (simp only: nth_map length_map) 
    have tk: "timeRemembered (t ! k) = at_current ((x0 # xs) ! k)"
      unfolding t_def using kx by (simp only: nth_map) (simp add: entry_of_def)
    have t0: "timeRemembered (t ! 0) = at_current ((x0 # xs) ! 0)"
      unfolding t_def by (simp add: entry_of_def)
    show False using lt le tk t0 by simp
  qed
  define s' where "s' = s10\<lparr>mappings := Some (t[0 := entry_of (gifc s) e])\<rparr>"
  have run: "learn_all s es = Inr s'"
    using fill eq k0 by (simp only: es learn_all_append) (simp add: s'_def)
  have macs: "learned_macs s' = from_src e # map from_src xs"
    using lx by (simp add: learned_macs_def entry_of_def s'_def s10_def t_def)
  have nin: "from_src (hd es) \<notin> set (learned_macs s')"
    using dist es macs by auto
  have others: "\<forall>y\<in>set (tl es). from_src y \<in> set (learned_macs s')"
    using es macs by auto
  have ne: "mappings_next_empty s' = mappings_size" by (simp add: s'_def s10_def)
  from run ne nin others show ?thesis by blast
qed

subsection \<open>Messages\<close>

lemma flood_filter:
  "flood g ifc frame is = map (\<lambda>a. forward_to (g ! a) frame) (filter (\<lambda>a. int a \<noteq> ifc) is)"
  by (induction "is") simp_all

lemma be16_val_htons: "be16_val (htons w) = unat w"
proof -
  have "unat w < 2 ^ LENGTH(16)" by (rule unsigned_less)
  then have b: "unat w < 65536" by simp
  then have d: "unat w div 256 < 256" by simp
  have "unat (of_nat (unat w div 256) :: byte) = unat w div 256"
    using d by (simp add: unat_of_nat)
  moreover have "unat (of_nat (unat w mod 256) :: byte) = unat w mod 256"
    by (simp add: unat_of_nat)
  ultimately show ?thesis by (simp add: htons_def)
qed

lemma forward_to_format:
  shows "msg_size (forward_to d frame) = (length frame + 4) mod 65536"
    and "msg_target (forward_to d frame) = unat (ifc_num d)"
    and "length (forward_to d frame) = length frame + 4"
    and "drop 4 (forward_to d frame) = frame"
proof -
  have l: "length (htons w) = 2" for w by (simp add: htons_def)
  have "unat (of_nat (length frame + 4) :: 16 word) = (length frame + 4) mod 2 ^ LENGTH(16)"
    by (rule unat_of_nat)
  then have "be16_val (htons (of_nat (length frame + 4))) = (length frame + 4) mod 65536"
    by (simp only: be16_val_htons) simp
  then show "msg_size (forward_to d frame) = (length frame + 4) mod 65536"
    by (simp only: msg_size_def forward_to_def sizeof_GLAB_MessageHeader_def) (simp add: l)
  show "msg_target (forward_to d frame) = unat (ifc_num d)"
    using be16_val_htons [of "ifc_num d"]
    by (simp add: msg_target_def forward_to_def l)
  show "length (forward_to d frame) = length frame + 4"
    by (simp add: forward_to_def l sizeof_GLAB_MessageHeader_def)
  show "drop 4 (forward_to d frame) = frame"
    by (simp add: forward_to_def l)
qed

lemma flood_targets:
  assumes "\<forall>a<length g. ifc_num (g ! a) = of_nat (a + 1)" and "length g < 65536"
  shows "map msg_target (flood g ifc frame [0..<length g]) =
           filter (\<lambda>j. int j \<noteq> ifc + 1) [1..<length g + 1]"
proof -
  have t: "msg_target (forward_to (g ! a) frame) = Suc a" if "a < length g" for a
  proof -
    have "unat (of_nat (a + 1) :: 16 word) = (a + 1) mod 2 ^ LENGTH(16)"
      by (rule unat_of_nat)
    also have "\<dots> = Suc a" using that assms(2) by simp
    finally have "unat (of_nat (a + 1) :: 16 word) = Suc a" .
    moreover have "ifc_num (g ! a) = of_nat (a + 1)" using that assms(1) by blast
    ultimately show ?thesis by (simp only: forward_to_format)
  qed
  have "map msg_target (flood g ifc frame [0..<length g]) =
          map Suc (filter (\<lambda>a. int a \<noteq> ifc) [0..<length g])"
    using t by (simp add: flood_filter)
  also have "\<dots> = filter (\<lambda>j. int j \<noteq> ifc + 1) (map Suc [0..<length g])"
    by (simp add: filter_map o_def)
  also have "map Suc [0..<length g] = [1..<length g + 1]"
    by (simp add: map_Suc_upt)
  finally show ?thesis .
qed


lemma main_init_numbering:
  "\<forall>a<num_ifc (main_init argc). ifc_num (gifc (main_init argc) ! a) = of_nat (a + 1)"
  by (simp add: main_init_def num_ifc_def)

text \<open>
  The emission taken alone, in a switch numbered as by \<^verbatim>\<open>main\<close> and for a frame whose
  length with the header fits 16 bits: the messages go to the interfaces in increasing
  order, and each is the frame behind the two big-endian numbers of the header. The
  program itself does not get to the emission, see \<open>handle_frame_writes_nothing\<close> below.
\<close>

lemma emit_step_order_and_format:
  assumes "\<forall>a<num_ifc s. ifc_num (gifc s ! a) = of_nat (a + 1)"
    and "num_ifc s < 65536" and "length frame + 4 < 65536"
  shows "\<exists>st msgs. emit_step s ifc frame found = (st, msgs) \<and>
           sorted_wrt (<) (map msg_target msgs) \<and>
           (found = None \<longrightarrow> st = None \<and>
              map msg_target msgs = filter (\<lambda>j. int j \<noteq> ifc + 1) [1..<num_ifc s + 1]) \<and>
           (\<forall>m\<in>set msgs. msg_size m = length frame + 4 \<and> length m = length frame + 4 \<and>
                          drop 4 m = frame)"
proof (cases found)
  case (Some j)
  then show ?thesis by (simp add: emit_step_def)
next
  case None
  let ?msgs = "flood (gifc s) ifc frame [0..<num_ifc s]"
  have e: "emit_step s ifc frame found = (None, ?msgs)" using None by (simp add: emit_step_def)
  have t: "map msg_target ?msgs = filter (\<lambda>j. int j \<noteq> ifc + 1) [1..<num_ifc s + 1]"
    using flood_targets [of "gifc s" ifc frame] assms(1,2) by (simp add: num_ifc_def)
  have "sorted_wrt (<) [1..<num_ifc s + 1]" by (rule sorted_wrt_upt)
  then have o: "sorted_wrt (<) (map msg_target ?msgs)"
    unfolding t by (rule sorted_wrt_filter)
  have f: "\<forall>m\<in>set ?msgs. msg_size m = length frame + 4 \<and> length m = length frame + 4 \<and>
                          drop 4 m = frame"
    using assms(3) by (auto simp: flood_filter forward_to_format)
  from e t o f show ?thesis by blast
qed


subsection \<open>How \<^verbatim>\<open>parse_frame\<close> ends\<close>

text \<open>
  Every frame of at least 14 bytes that passes the guard of \<^verbatim>\<open>handle_frame\<close> ends in
  a fault and nothing is written: either step 1 faults (no table behind \<^verbatim>\<open>mappings\<close>,
  or the arrival interface is number 0), or the first iteration of the lookup loop does.
\<close>

lemma valid_frame_faults:
  assumes "14 \<le> length frame" and "unat interface \<le> num_ifc s"
  shows "\<exists>f. handle_frame s interface frame current oldest0 = (Faulted f, [])"
proof -
  have u: "[0..<mappings_size] = 0 # [1..<mappings_size]"
    by (simp add: mappings_size_def upt_conv_Cons)
  have l: "\<exists>f. lookup_scan p dst [0..<mappings_size] = Inl f" for p dst
    unfolding u by (rule lookup_scan_faults)
  have n: "\<not> length frame < sizeof_EthernetHeader"
    using assms(1) by (simp add: sizeof_EthernetHeader_def sizeof_MacAddress_def)
  show ?thesis
  proof (cases "learn s (int (unat interface) - 1) (take sizeof_MacAddress (drop sizeof_MacAddress frame)) current oldest0")
    case (Inl f)
    then show ?thesis using assms(2) n
      by (simp add: handle_frame_def parse_frame_def eh_dst_is_null_def Let_def)
  next
    case (Inr s1)
    from l [of "mappings s1" "take sizeof_MacAddress frame"]
    obtain f where "lookup_scan (mappings s1) (take sizeof_MacAddress frame) [0..<mappings_size] = Inl f" ..
    then show ?thesis using Inr assms(2) n
      by (simp add: handle_frame_def parse_frame_def eh_dst_is_null_def Let_def)
  qed
qed

text \<open>
  Consequently \<^verbatim>\<open>handle_frame\<close> writes no message at all: a frame is dropped as
  malformed, or the call ends in \<^verbatim>\<open>abort()\<close>, or it ends in a fault before the
  emission.
\<close>

lemma handle_frame_writes_nothing:
  "snd (handle_frame s interface frame current oldest0) = []"
proof (cases "num_ifc s < unat interface")
  case True
  then show ?thesis by (simp add: handle_frame_def)
next
  case False
  then have g: "unat interface \<le> num_ifc s" by simp
  show ?thesis
  proof (cases "length frame < 14")
    case True
    then show ?thesis using False
      by (simp add: handle_frame_def parse_frame_def sizeof_EthernetHeader_def
          sizeof_MacAddress_def)
  next
    case False
    then have "14 \<le> length frame" by simp
    from valid_frame_faults [OF this g, of current oldest0]
    obtain f where "handle_frame s interface frame current oldest0 = (Faulted f, [])" ..
    then show ?thesis by simp
  qed
qed






lemma parse_frame_not_aborted: "fst (parse_frame s ifc frame current oldest0) \<noteq> Aborted"
  by (simp add: parse_frame_def Let_def split: sum.splits prod.splits option.splits)

lemma update_last: "xs \<noteq> [] \<Longrightarrow> xs[length xs - 1 := v] = butlast xs @ [v]"
  by (cases xs rule: rev_cases) (simp_all add: list_update_append)


section \<open>The properties\<close>

subsection \<open>Learning and lookup\<close>

text \<open>
  C1. After \<^verbatim>\<open>handle_frame\<close> has processed a frame of at least 14 bytes with sender
  \<open>M\<close> (not the broadcast address) on interface \<open>I\<close>, looking \<open>M\<close> up in the table
  gives \<open>I\<close>. The code does not get that far: the lookup loop hands the value of
  \<^verbatim>\<open>&(eh.dst) == 0\<close> to \<^verbatim>\<open>maccmp\<close> as the second address, so the call of
  \<^verbatim>\<open>handle_frame\<close> ends in a fault, with the table allocated and also in the state
  that \<^verbatim>\<open>main\<close> sets up.
\<close>

theorem learning_then_lookup_faults:
  "handle_frame demo_state 1 (eth mac_B mac_A) 100 100 = (Faulted NullDeref, []) \<and>
   handle_frame (main_init 4) 1 (eth mac_B mac_A) 100 100 = (Faulted NullDeref, [])"
  by code_simp

text \<open>
  C2. The interfaces a frame is written to never include the arrival interface; a
  receiver known at the arrival interface means no message, a receiver known at
  another interface \<open>J\<close> means one message, to \<open>J\<close>. In the code a frame from
  interface 2 for \<open>mac_B\<close>, which the table has at interface 3, is written nowhere:
  the call ends in the fault of the lookup loop. The branch for a known receiver would
  hand \<^verbatim>\<open>&destination_if\<close> to \<^verbatim>\<open>forward_to\<close> and has no test against the arrival
  interface.
\<close>

theorem known_unicast_faults:
  "handle_frame known_state 2 (eth mac_B mac_A) 100 100 = (Faulted NullDeref, []) \<and>
   emit_step known_state 1 (eth mac_B mac_A) (Some 3) = (Some OutOfBounds, [])"
  by code_simp



subsection \<open>Capacity, eviction and repeated senders\<close>

text \<open>
  C4. The table has \<^verbatim>\<open>mappings_size\<close> = 10 slots and never more than 10 occupied ones.
  When a sender is entered while all slots are occupied, the slot overwritten holds the
  smallest \<^verbatim>\<open>timeRemembered\<close>, and is the first such slot; after eleven senders with
  different addresses in the order of their arrival times, a lookup does not find the
  first address and finds the other ten. The code enters no sender: \<^verbatim>\<open>mappings\<close> is
  never given a table, so for the eleven senders step 1 ends in a fault at the first of
  them, and so does the call of \<^verbatim>\<open>handle_frame\<close> for its frame. When \<^verbatim>\<open>mappings\<close>
  points to a table, the eleven senders are entered, and the lookup loop then ends in a
  fault for the second address, which it should find.
\<close>

theorem eviction_never_reached:
  "learn_all (main_init 4) eleven = Inl NullDeref \<and>
   handle_frame (main_init 4) 1 (eth broadcast (from_src (hd eleven))) 0 0 =
     (Faulted NullDeref, []) \<and>
   (case learn_all demo_state eleven of
      Inl f \<Rightarrow> Inl f
    | Inr s \<Rightarrow> lookup_scan (mappings s) (from_src (eleven ! 1)) [0..<mappings_size]) =
     Inl NullDeref"
  by code_simp

text \<open>
  C5. The table has at most one entry for an address, and a second frame from the same
  sender on the same interface refreshes that entry without occupying another slot.
  In the code the search for the sender's entry is the body of a test that holds only
  for a null pointer, so every frame is entered as a new sender: after two frames from
  \<open>mac_A\<close> on interface 1 two slots are occupied and both hold \<open>mac_A\<close>.
\<close>

theorem relearning_duplicates:
  "learn_all demo_state
     [\<lparr>at_ifc = 0, from_src = mac_A, at_current = 100, at_oldest0 = 100\<rparr>,
      \<lparr>at_ifc = 0, from_src = mac_A, at_current = 101, at_oldest0 = 101\<rparr>] = Inr twice_state \<and>
   mappings_next_empty twice_state = 2 \<and>
   learned_macs twice_state = [mac_A, mac_A]"
  by code_simp

subsection \<open>Broadcast frames\<close>

text \<open>
  C6. A frame of at least 14 bytes for the broadcast address, arriving on interface
  \<open>I\<close>, is written to every interface of the switch but \<open>I\<close>. In the code the test
  for a broadcast receiver is \<^verbatim>\<open>&(eh).dst == NULL\<close>, which never holds, and the call
  ends in the fault of the lookup loop before anything is written.
\<close>

theorem broadcast_destination_faults:
  "handle_frame demo_state 1 (eth broadcast mac_A) 100 100 = (Faulted NullDeref, [])"
  by code_simp

subsection \<open>Malformed frames\<close>

text \<open>
  C7. A frame shorter than the 14 bytes of the Ethernet header, handed to
  \<^verbatim>\<open>handle_frame\<close> with an interface number that passes the guard, is dropped:
  nothing is written, the state (address table, interfaces) is the one before the call,
  and the call returns.
\<close>

theorem malformed_frame_dropped:
  assumes "length frame < 14" and "unat interface \<le> num_ifc s"
  shows "handle_frame s interface frame current oldest0 = (Returned s, [])"
  using assms
  by (simp add: handle_frame_def parse_frame_def sizeof_EthernetHeader_def sizeof_MacAddress_def)

theorem malformed_frame_dropped_witness:
  "handle_frame demo_state 1 (take 10 (eth mac_B mac_A)) 100 100 = (Returned demo_state, [])"
proof -
  have h1: "length (take 10 (eth mac_B mac_A)) < 14" by simp
  have h2: "unat (1 :: 16 word) \<le> num_ifc demo_state"
    by (simp add: demo_state_def main_init_def num_ifc_def)
  show ?thesis by (rule malformed_frame_dropped [OF h1 h2])
qed

subsection \<open>Interface numbers\<close>

text \<open>
  C8, as amended. \<^verbatim>\<open>handle_frame\<close> and \<^verbatim>\<open>handle_mac\<close> call \<^verbatim>\<open>abort()\<close> exactly
  when the interface number is greater than the number of interfaces; the number 0
  passes the guard. For a number from 1 to \<^verbatim>\<open>num_ifc\<close>, \<^verbatim>\<open>handle_mac\<close> stores the
  address in the element of that interface and returns.
\<close>

theorem abort_iff_above_range:
  "(fst (handle_frame s n frame current oldest0) = Aborted) = (num_ifc s < unat n) \<and>
   (handle_mac s n m = Aborted) = (num_ifc s < unat n) \<and>
   (0 < unat n \<and> unat n \<le> num_ifc s \<longrightarrow>
      handle_mac s n m =
        Returned (s\<lparr>gifc := (gifc s)[unat n - 1 := (gifc s ! (unat n - 1))\<lparr>mac := m\<rparr>]\<rparr>))"
  using parse_frame_not_aborted [of s "int (unat n) - 1" frame current oldest0]
  by (auto simp: handle_frame_def handle_mac_def)


theorem abort_iff_above_range_witness:
  "fst (handle_frame demo_state 2 (eth mac_B mac_A) 100 100) \<noteq> Aborted \<and>
   handle_mac demo_state 2 mac_A =
     Returned (demo_state\<lparr>gifc := (gifc demo_state)[1 := (gifc demo_state ! 1)\<lparr>mac := mac_A\<rparr>]\<rparr>)"
proof -
  have h: "0 < unat (2 :: 16 word) \<and> unat (2 :: 16 word) \<le> num_ifc demo_state"
    by (simp add: demo_state_def main_init_def num_ifc_def)
  then have n: "\<not> num_ifc demo_state < unat (2 :: 16 word)" by simp
  from abort_iff_above_range [of demo_state 2 "eth mac_B mac_A" 100 100 mac_A] h n
  show ?thesis by simp
qed

text \<open>
  C8 as stated fails for the number 0, which is outside 1..N: a short frame for
  interface 0 is dropped and the call returns, and \<^verbatim>\<open>handle_mac\<close> does not reach
  \<^verbatim>\<open>abort()\<close> but writes in front of the array.
\<close>

theorem interface_zero_counterexample:
  "handle_frame demo_state 0 (take 10 (eth mac_B mac_A)) 100 100 = (Returned demo_state, []) \<and>
   handle_mac demo_state 0 mac_A = Faulted OutOfBounds"
  by code_simp

subsection \<open>Order and format of the messages\<close>

text \<open>
  C9. The messages for a frame are written once per interface of the destination set,
  in increasing order of the interface number, and each is the frame, byte for byte,
  behind a header of two 16-bit big-endian numbers: the length of frame and header
  together, and the number of the interface it is for. The code writes no message: a
  frame for an unknown receiver on interface 2 of three, to be written to interfaces 1
  and 3, ends in the fault of step 1 in the state that \<^verbatim>\<open>main\<close> sets up, and in the
  fault of the lookup loop when \<^verbatim>\<open>mappings\<close> points to a table; the branch for a known
  receiver reads the interface number outside of \<^verbatim>\<open>destination_if\<close> and stops as well.
\<close>

theorem emission_never_reached:
  "handle_frame (main_init 4) 2 (eth mac_A mac_B) 100 100 = (Faulted NullDeref, []) \<and>
   handle_frame demo_state 2 (eth mac_A mac_B) 100 100 = (Faulted NullDeref, []) \<and>
   emit_step demo_state 1 (eth mac_A mac_B) (Some 1) = (Some OutOfBounds, [])"
  by code_simp

subsection \<open>Control commands\<close>

text \<open>
  C10. For a command of at least one byte \<^verbatim>\<open>handle_control\<close> leaves the address
  table, the interfaces and their number as they are; it overwrites the last byte of
  the buffer with NUL, and the text it then logs is the buffer up to the first NUL.
\<close>

theorem control_only_terminates_buffer:
  assumes "1 \<le> length cmd"
  shows "handle_control s cmd (length cmd) =
           (Returned s, butlast cmd @ [0], takeWhile (\<lambda>b. b \<noteq> 0) (butlast cmd @ [0]))"
proof -
  have ne: "cmd \<noteq> []" using assms by auto
  then have "cmd[length cmd - 1 := 0] = butlast cmd @ [0]" by (rule update_last)
  then show ?thesis using ne by (simp add: handle_control_def Let_def)
qed

theorem control_only_terminates_buffer_witness:
  "handle_control demo_state [104, 105, 10] 3 = (Returned demo_state, [104, 105, 0], [104, 105])"
proof -
  have h: "1 \<le> length [104, 105, 10 :: byte]" by simp
  have l: "length [104, 105, 10 :: byte] = 3" by simp
  have b: "butlast [104, 105, 10 :: byte] @ [0] = [104, 105, 0]" by simp
  have t: "takeWhile (\<lambda>b. b \<noteq> 0) [104, 105, 0 :: byte] = [104, 105]" by simp
  from control_only_terminates_buffer [OF h, of demo_state]
  show ?thesis unfolding l b t .
qed

end
